theory Spec2Isabelle
  imports Main "HOL-Library.Sublist" "HOL-Library.Multiset"
begin

section \<open>Strings\<close>

text \<open>
  A JavaScript string is modelled as a \<^typ>\<open>string\<close>: a list of code units, of which HOL's
  \<^typ>\<open>char\<close> holds the first 256. \<open>s.length === 0\<close> is \<open>s = []\<close>, \<open>s.includes(c)\<close> for a
  one-character \<open>c\<close> is \<open>c \<in> set s\<close>, \<open>s.startsWith(p)\<close> is \<open>prefix p s\<close>.
\<close>

text \<open>
  The code units that \<open>String.prototype.trim\<close> strips (WhiteSpace and LineTerminator of
  ECMAScript) among the first 256: TAB, LF, VT, FF, CR, SPACE and NBSP.
\<close>

definition isWhiteSpace :: "char \<Rightarrow> bool" where
  "isWhiteSpace c \<longleftrightarrow>
     c = CHR 0x09 \<or> c = CHR 0x0A \<or> c = CHR 0x0B \<or> c = CHR 0x0C \<or> c = CHR 0x0D \<or>
     c = CHR 0x20 \<or> c = CHR 0xA0"

definition trim :: "string \<Rightarrow> string" where
  "trim s = rev (dropWhile isWhiteSpace (rev (dropWhile isWhiteSpace s)))"

text \<open>\<open>s.split(sep)\<close> for a one-character separator: never the empty list.\<close>

fun split_on :: "char \<Rightarrow> string \<Rightarrow> string list" where
  "split_on c [] = [[]]"
| "split_on c (x # xs) =
     (if x = c then [] # split_on c xs
      else (case split_on c xs of [] \<Rightarrow> [[x]] | s # ss \<Rightarrow> (x # s) # ss))"

text \<open>\<open>parts.join("/")\<close>.\<close>

fun join_sep :: "string list \<Rightarrow> string" where
  "join_sep [] = []"
| "join_sep [x] = x"
| "join_sep (x # y # zs) = x @ CHR ''/'' # join_sep (y # zs)"

section \<open>Node's \<open>path\<close> module (POSIX)\<close>

text \<open>
  \<open>path.sep\<close> is \<open>"/"\<close>. \<open>normalizeString\<close> of Node walks the path's characters and keeps
  the segments between separators on a stack: an empty segment and \<open>"."\<close> are dropped,
  \<open>".."\<close> pops the last segment (unless there is none or it is \<open>".."\<close> itself, when \<open>".."\<close> is
  kept only if the path may climb above its root), every other segment is pushed.
\<close>

definition normalize_step :: "bool \<Rightarrow> string list \<Rightarrow> string \<Rightarrow> string list" where
  "normalize_step allowAboveRoot res seg =
     (if seg = [] \<or> seg = ''.'' then res
      else if seg = ''..'' then
        (if res \<noteq> [] \<and> last res \<noteq> ''..'' then butlast res
         else if allowAboveRoot then res @ [''..'']
         else res)
      else res @ [seg])"

definition normalize_segments :: "bool \<Rightarrow> string \<Rightarrow> string list" where
  "normalize_segments allowAboveRoot p =
     foldl (normalize_step allowAboveRoot) [] (split_on CHR ''/'' p)"

definition normalizeString :: "string \<Rightarrow> bool \<Rightarrow> string" where
  "normalizeString p allowAboveRoot = join_sep (normalize_segments allowAboveRoot p)"

definition isAbsolute :: "string \<Rightarrow> bool" where
  "isAbsolute p \<longleftrightarrow> (case p of [] \<Rightarrow> False | c # _ \<Rightarrow> c = CHR ''/'')"

text \<open>\<open>path.normalize\<close>.\<close>

definition path_normalize :: "string \<Rightarrow> string" where
  "path_normalize p =
     (if p = [] then ''.''
      else
        (let trailingSeparator = (last p = CHR ''/'');
             q = normalizeString p (\<not> isAbsolute p)
         in if q = [] then
              (if isAbsolute p then ''/'' else if trailingSeparator then ''./'' else ''.'')
            else
              (let q' = (if trailingSeparator then q @ ''/'' else q)
               in if isAbsolute p then CHR ''/'' # q' else q')))"

text \<open>\<open>path.join(...args)\<close>: the non-empty arguments joined by \<open>"/"\<close>, then normalised.\<close>

definition path_join :: "string list \<Rightarrow> string" where
  "path_join args =
     (case filter (\<lambda>a. a \<noteq> []) args of
        [] \<Rightarrow> ''.''
      | joined \<Rightarrow> path_normalize (join_sep joined))"

text \<open>
  \<open>path.resolve(...args)\<close>: the arguments are read from the right, each put in front of
  the path built so far, until one of them is absolute; the working directory comes
  after the leftmost argument. \<open>resolve_loop\<close> takes the arguments in that order.
\<close>

fun resolve_loop :: "string list \<Rightarrow> string \<Rightarrow> string \<times> bool" where
  "resolve_loop [] resolvedPath = (resolvedPath, False)"
| "resolve_loop (p # ps) resolvedPath =
     (if p = [] then resolve_loop ps resolvedPath
      else if isAbsolute p then (p @ CHR ''/'' # resolvedPath, True)
      else resolve_loop ps (p @ CHR ''/'' # resolvedPath))"

definition path_resolve :: "string \<Rightarrow> string list \<Rightarrow> string" where
  "path_resolve cwd args =
     (case resolve_loop (rev args @ [cwd]) [] of
        (resolvedPath, resolvedAbsolute) \<Rightarrow>
          (let n = normalizeString resolvedPath (\<not> resolvedAbsolute)
           in if resolvedAbsolute then CHR ''/'' # n
              else if n \<noteq> [] then n else ''.''))"

text \<open>The segments of a path: what stands between its separators.\<close>

definition path_segments :: "string \<Rightarrow> string list" where
  "path_segments p = filter (\<lambda>s. s \<noteq> []) (split_on CHR ''/'' p)"

section \<open>Errors\<close>

text \<open>
  Every \<open>throw\<close> of the sources is a value of \<open>error\<close>. \<open>InvalidSlug s\<close> is
  \<open>Error(`Invalid slug: ${s}`)\<close>; \<open>NoPostsFound root layout\<close> is
  \<open>Error(`No posts found in ${root}. Expected "${layout}".`)\<close>; \<open>JsError\<close> is any other
  \<open>Error\<close>, of the file system (with the path) or of a lookup (with its message);
  \<open>NotFound\<close> is what \<open>notFound()\<close> throws.
\<close>

datatype error =
    InvalidSlug string
  | NoPostsFound string string
  | PostsRootNotFound string
  | NoValidPosts
  | NoGeneratedPosts
  | JsError string
  | NotFound

section \<open>Content discovery\<close>

definition POST_ENTRY_FILENAME :: string where
  "POST_ENTRY_FILENAME = ''index.md''"

definition normalizeSlug :: "string \<Rightarrow> error + string" where
  "normalizeSlug slug =
     (let cleaned = trim slug
      in if cleaned = [] \<or> cleaned = ''.'' \<or> cleaned = ''..'' \<or>
            CHR ''/'' \<in> set cleaned \<or> CHR 0x5C \<in> set cleaned
         then Inl (InvalidSlug slug)
         else Inr cleaned)"

text \<open>\<open>slug.replace(/^\//, "")\<close>: one leading \<open>"/"\<close> is removed.\<close>

definition strip_leading_slash :: "string \<Rightarrow> string" where
  "strip_leading_slash slug =
     (case slug of [] \<Rightarrow> [] | c # cs \<Rightarrow> if c = CHR ''/'' then cs else slug)"

definition resolvePostFilePath :: "string \<Rightarrow> string \<Rightarrow> string \<Rightarrow> error + string" where
  "resolvePostFilePath cwd postsRoot slug =
     (case normalizeSlug (strip_leading_slash slug) of
        Inl e \<Rightarrow> Inl e
      | Inr safeSlug \<Rightarrow>
          (let candidate = path_resolve cwd [postsRoot, safeSlug, POST_ENTRY_FILENAME];
               normalizedPostsRoot = path_resolve cwd [postsRoot]
           in if \<not> prefix (normalizedPostsRoot @ ''/'') candidate \<and>
                 candidate \<noteq> normalizedPostsRoot
              then Inl (InvalidSlug slug)
              else Inr candidate))"

text \<open>
  A path lies within a root when the root's segments are the first segments of the path
  and no segment of the path climbs back (\<open>".."\<close>).
\<close>

definition lies_within :: "string \<Rightarrow> string \<Rightarrow> bool" where
  "lies_within root p \<longleftrightarrow>
     prefix (path_segments root) (path_segments p) \<and> ''..'' \<notin> set (path_segments p)"

text \<open>Segments as \<open>normalizeString\<close> leaves them in an absolute path.\<close>

definition clean_segments :: "string list \<Rightarrow> bool" where
  "clean_segments res \<longleftrightarrow>
     (\<forall>s \<in> set res. s \<noteq> [] \<and> s \<noteq> ''..'' \<and> CHR ''/'' \<notin> set s)"

section \<open>\<open>Array.prototype.sort\<close>\<close>

text \<open>
  The engine's sort, as a stable insertion sort that asks the comparator for the sign of
  \<open>compareFn(x, y)\<close> only: an element goes in front of the first element it compares
  below, and behind every element it compares equal to or above.
\<close>

fun insert_by :: "('a \<Rightarrow> 'a \<Rightarrow> int) \<Rightarrow> 'a \<Rightarrow> 'a list \<Rightarrow> 'a list" where
  "insert_by compareFn x [] = [x]"
| "insert_by compareFn x (y # ys) =
     (if compareFn x y < 0 then x # y # ys else y # insert_by compareFn x ys)"

definition js_sort :: "('a \<Rightarrow> 'a \<Rightarrow> int) \<Rightarrow> 'a list \<Rightarrow> 'a list" where
  "js_sort compareFn xs = foldl (\<lambda>sorted x. insert_by compareFn x sorted) [] xs"


section \<open>Posts\<close>

datatype access = Public | Unlisted | Private | Protected

text \<open>
  \<open>Frontmatter\<close>, with the fields of \<open>SerializedPostEntry["frontmatter"]\<close>. A date is its
  time value (\<open>Date.prototype.getTime\<close>, milliseconds since the epoch): validated dates are
  valid, and \<open>toISOString\<close> followed by \<open>new Date\<close> keeps the time value.
\<close>

record frontmatter =
  fm_title :: string
  fm_access :: access
  fm_password :: "string option"
  fm_description :: "string option"
  fm_thumbnail :: "string option"
  fm_topics :: "string list option"
  fm_date :: "int option"

text \<open>\<open>PostEntry\<close>; \<open>SerializedPostEntry\<close> adds the body.\<close>

record post_entry =
  e_slug :: string
  e_path :: string
  e_sha :: string
  e_frontmatter :: frontmatter

record serialized_post_entry = post_entry +
  e_content :: string

text \<open>An issue of a \<open>FrontmatterValidationError\<close>: the field and the message.\<close>

type_synonym issue = "string \<times> string"

text \<open>What \<open>Promise.allSettled\<close> holds for a rejected task.\<close>

datatype rejection = Thrown error | FrontmatterValidationError "issue list"

text \<open>The \<open>console.warn\<close> calls of discovery and ingestion.\<close>

datatype warning =
    SkipDirectoryWithoutEntry string
  | SkipInvalidFrontmatter string "issue list"
  | SkipUnexpectedError string error

record dirent =
  d_name :: string
  isDirectory :: bool

text \<open>
  What the code reads from its process: the working directory, the environment, the
  file system (\<open>fs.readdir\<close> with \<open>withFileTypes\<close>, \<open>fs.access\<close>, \<open>fs.readFile\<close>; \<open>None\<close> and
  \<open>False\<close> are a rejected promise), \<open>String.prototype.localeCompare\<close>, the order in
  which the \<open>fs.access\<close> promises of one discovery pass settle, and the repository's
  \<open>parsePost\<close> and SHA-1 digest.
\<close>

record runtime =
  rt_cwd :: string
  rt_CONTENT_DIR :: "string option"
  rt_POSTS_ROOT_DIR :: "string option"
  rt_readdir :: "string \<Rightarrow> dirent list option"
  rt_access :: "string \<Rightarrow> bool"
  rt_readFile :: "string \<Rightarrow> string option"
  rt_localeCompare :: "string \<Rightarrow> string \<Rightarrow> int"
  rt_settled :: "string list \<Rightarrow> string list"
  rt_parsePost :: "string \<Rightarrow> issue list + frontmatter \<times> string"
  rt_sha1 :: "string \<Rightarrow> string"

text \<open>\<open>xs.map(f)\<close> with a callback that may throw: the first throw ends the map.\<close>

fun map_throwing :: "('a \<Rightarrow> error + 'b) \<Rightarrow> 'a list \<Rightarrow> error + 'b list" where
  "map_throwing f [] = Inr []"
| "map_throwing f (x # xs) =
     (case f x of
        Inl e \<Rightarrow> Inl e
      | Inr y \<Rightarrow> (case map_throwing f xs of Inl e \<Rightarrow> Inl e | Inr ys \<Rightarrow> Inr (y # ys)))"

text \<open>
  One \<open>fs.access\<close> check of \<open>listPostSlugs\<close> as it settles: the slug is pushed to
  \<open>found\<close>, or the directory is skipped with a warning.
\<close>

definition access_step ::
  "runtime \<Rightarrow> string \<Rightarrow> string list \<times> warning list \<Rightarrow> string \<Rightarrow> string list \<times> warning list" where
  "access_step rt postsRoot acc slug =
     (let filePath = path_join [postsRoot, slug, POST_ENTRY_FILENAME]
      in if rt_access rt filePath then (fst acc @ [slug], snd acc)
         else (fst acc, snd acc @ [SkipDirectoryWithoutEntry filePath]))"

text \<open>
  \<open>listPostSlugs\<close>, the same text in the live module and in the generator script but
  for the layout its error names, \<open>expected\<close>. The result is the warnings logged and
  what the promise settles to.
\<close>

definition listPostSlugs :: "runtime \<Rightarrow> string \<Rightarrow> string \<Rightarrow> warning list \<times> (error + string list)" where
  "listPostSlugs rt expected postsRoot =
     (case rt_readdir rt postsRoot of
        None \<Rightarrow> ([], Inl (JsError postsRoot))
      | Some entries \<Rightarrow>
          (case map_throwing normalizeSlug
                  (map d_name (filter (\<lambda>entry. isDirectory entry \<and> \<not> prefix ''.'' (d_name entry)) entries)) of
             Inl e \<Rightarrow> ([], Inl e)
           | Inr dirNames \<Rightarrow>
               (case foldl (access_step rt postsRoot) ([], []) (rt_settled rt dirNames) of
                  (found, warnings) \<Rightarrow>
                    if found = [] then (warnings, Inl (NoPostsFound postsRoot expected))
                    else (warnings, Inr (js_sort (rt_localeCompare rt) found)))))"

text \<open>The names a discovery pass normalises: the non-hidden directories of the listing.\<close>

definition candidate_names :: "dirent list \<Rightarrow> string list" where
  "candidate_names entries =
     map d_name (filter (\<lambda>entry. isDirectory entry \<and> \<not> prefix ''.'' (d_name entry)) entries)"


section \<open>Ingestion\<close>

text \<open>\<open>filePath.split(path.sep).join("/")\<close>.\<close>

definition toPosixPath :: "string \<Rightarrow> string" where
  "toPosixPath filePath = join_sep (split_on CHR ''/'' filePath)"

definition assertPostsRootExists :: "runtime \<Rightarrow> string \<Rightarrow> error + unit" where
  "assertPostsRootExists rt postsRoot =
     (if rt_access rt postsRoot then Inr () else Inl (PostsRootNotFound postsRoot))"

text \<open>
  The \<open>forEach\<close> over the settled results: a fulfilled result is pushed to \<open>entries\<close>, a
  rejected one is logged under \<open>slugs[index]\<close>.
\<close>

definition skip_warning :: "string \<Rightarrow> rejection \<Rightarrow> warning" where
  "skip_warning postPath reason =
     (case reason of
        FrontmatterValidationError issues \<Rightarrow>
          SkipInvalidFrontmatter (postPath @ ''/'' @ POST_ENTRY_FILENAME) issues
      | Thrown e \<Rightarrow> SkipUnexpectedError (postPath @ ''/'' @ POST_ENTRY_FILENAME) e)"

definition settle_step ::
  "warning list \<times> 'e list \<Rightarrow> string \<times> (rejection + 'e) \<Rightarrow> warning list \<times> 'e list" where
  "settle_step acc r =
     (case snd r of
        Inr v \<Rightarrow> (fst acc, snd acc @ [v])
      | Inl reason \<Rightarrow> (fst acc @ [skip_warning (fst r) reason], snd acc))"

definition collect_settled ::
  "string list \<Rightarrow> (rejection + 'e) list \<Rightarrow> warning list \<times> 'e list" where
  "collect_settled slugs results = foldl settle_step ([], []) (zip slugs results)"

subsection \<open>The live module\<close>

definition DEFAULT_CONTENT_DIR_live :: string where
  "DEFAULT_CONTENT_DIR_live = ''external-posts''"

definition EXPECTED_LAYOUT_live :: string where
  "EXPECTED_LAYOUT_live = DEFAULT_CONTENT_DIR_live @ ''/<slug>/'' @ POST_ENTRY_FILENAME"

definition contentDir_live :: "runtime \<Rightarrow> string" where
  "contentDir_live rt =
     (case rt_CONTENT_DIR rt of None \<Rightarrow> DEFAULT_CONTENT_DIR_live | Some d \<Rightarrow> d)"

definition resolvePostsRoot_live :: "runtime \<Rightarrow> string" where
  "resolvePostsRoot_live rt = path_join [rt_cwd rt, contentDir_live rt]"

text \<open>The task of one slug: what \<open>Promise.allSettled\<close> settles for it.\<close>

definition readPostEntry_live :: "runtime \<Rightarrow> string \<Rightarrow> string \<Rightarrow> rejection + post_entry" where
  "readPostEntry_live rt postsRoot slug =
     (case resolvePostFilePath (rt_cwd rt) postsRoot slug of
        Inl e \<Rightarrow> Inl (Thrown e)
      | Inr absolutePath \<Rightarrow>
          (case rt_readFile rt absolutePath of
             None \<Rightarrow> Inl (Thrown (JsError absolutePath))
           | Some raw \<Rightarrow>
               (case rt_parsePost rt raw of
                  Inl issues \<Rightarrow> Inl (FrontmatterValidationError issues)
                | Inr (frontmatter, content) \<Rightarrow>
                    Inr \<lparr>e_slug = slug,
                         e_path = toPosixPath (path_join [contentDir_live rt, slug, POST_ENTRY_FILENAME]),
                         e_sha = rt_sha1 rt raw,
                         e_frontmatter = frontmatter\<rparr>)))"

definition listPostsCached_live :: "runtime \<Rightarrow> warning list \<times> (error + post_entry list)" where
  "listPostsCached_live rt =
     (let postsRoot = resolvePostsRoot_live rt
      in case assertPostsRootExists rt postsRoot of
           Inl e \<Rightarrow> ([], Inl e)
         | Inr _ \<Rightarrow>
             (case listPostSlugs rt EXPECTED_LAYOUT_live postsRoot of
                (w, Inl e) \<Rightarrow> (w, Inl e)
              | (w, Inr slugs) \<Rightarrow>
                  (case collect_settled slugs (map (readPostEntry_live rt postsRoot) slugs) of
                     (w', entries) \<Rightarrow> (w @ w', Inr entries))))"

subsection \<open>The generator script\<close>

definition DEFAULT_CONTENT_DIR :: string where
  "DEFAULT_CONTENT_DIR = ''my-blog-contents''"

definition DEFAULT_POSTS_ROOT_DIR :: string where
  "DEFAULT_POSTS_ROOT_DIR = ''external-posts''"

definition EXPECTED_LAYOUT :: string where
  "EXPECTED_LAYOUT =
     DEFAULT_CONTENT_DIR @ ''/'' @ DEFAULT_POSTS_ROOT_DIR @ ''/<slug>/'' @ POST_ENTRY_FILENAME"

definition contentDir :: "runtime \<Rightarrow> string" where
  "contentDir rt = (case rt_CONTENT_DIR rt of None \<Rightarrow> DEFAULT_CONTENT_DIR | Some d \<Rightarrow> d)"

definition postsRootDir :: "runtime \<Rightarrow> string" where
  "postsRootDir rt = (case rt_POSTS_ROOT_DIR rt of None \<Rightarrow> DEFAULT_POSTS_ROOT_DIR | Some d \<Rightarrow> d)"

definition resolvePostsRoot :: "runtime \<Rightarrow> string" where
  "resolvePostsRoot rt = path_join [rt_cwd rt, contentDir rt, postsRootDir rt]"

text \<open>\<open>serializeFrontmatter\<close>: the date becomes its ISO string, which holds the time value.\<close>

definition serializeFrontmatter :: "frontmatter \<Rightarrow> frontmatter" where
  "serializeFrontmatter fm =
     fm\<lparr>fm_date := (case fm_date fm of None \<Rightarrow> None | Some t \<Rightarrow> Some t)\<rparr>"

definition readPostEntry :: "runtime \<Rightarrow> string \<Rightarrow> string \<Rightarrow> rejection + serialized_post_entry" where
  "readPostEntry rt postsRoot slug =
     (case resolvePostFilePath (rt_cwd rt) postsRoot slug of
        Inl e \<Rightarrow> Inl (Thrown e)
      | Inr absolutePath \<Rightarrow>
          (case rt_readFile rt absolutePath of
             None \<Rightarrow> Inl (Thrown (JsError absolutePath))
           | Some raw \<Rightarrow>
               (case rt_parsePost rt raw of
                  Inl issues \<Rightarrow> Inl (FrontmatterValidationError issues)
                | Inr (frontmatter, content) \<Rightarrow>
                    Inr \<lparr>e_slug = slug,
                         e_path = toPosixPath
                           (path_join [contentDir rt, postsRootDir rt, slug, POST_ENTRY_FILENAME]),
                         e_sha = rt_sha1 rt raw,
                         e_frontmatter = serializeFrontmatter frontmatter,
                         e_content = content\<rparr>)))"

definition buildPosts :: "runtime \<Rightarrow> warning list \<times> (error + serialized_post_entry list)" where
  "buildPosts rt =
     (let postsRoot = resolvePostsRoot rt
      in case assertPostsRootExists rt postsRoot of
           Inl e \<Rightarrow> ([], Inl e)
         | Inr _ \<Rightarrow>
             (case listPostSlugs rt EXPECTED_LAYOUT postsRoot of
                (w, Inl e) \<Rightarrow> (w, Inl e)
              | (w, Inr slugs) \<Rightarrow>
                  (case collect_settled slugs (map (readPostEntry rt postsRoot) slugs) of
                     (w', entries) \<Rightarrow>
                       if entries = [] then (w @ w', Inl NoValidPosts)
                       else (w @ w', Inr entries))))"

section \<open>The post repository over the generated snapshot\<close>

text \<open>\<open>generatedPosts\<close>, the array the generator wrote, is an argument.\<close>

definition listPostsCached ::
  "serialized_post_entry list \<Rightarrow> error + serialized_post_entry list" where
  "listPostsCached generatedPosts =
     (if generatedPosts = [] then Inl NoGeneratedPosts else Inr generatedPosts)"

text \<open>
  \<open>restoreDates\<close>: a date that is there is turned into a \<open>Date\<close> of the same time value,
  one that is not stays \<open>undefined\<close>.
\<close>

definition restoreDates :: "'a post_entry_scheme \<Rightarrow> 'a post_entry_scheme" where
  "restoreDates item =
     item\<lparr>e_frontmatter :=
       (e_frontmatter item)\<lparr>fm_date :=
         (case fm_date (e_frontmatter item) of None \<Rightarrow> None | Some t \<Rightarrow> Some t)\<rparr>\<rparr>"

definition listPosts ::
  "serialized_post_entry list \<Rightarrow> error + serialized_post_entry list" where
  "listPosts generatedPosts =
     (case listPostsCached generatedPosts of
        Inl e \<Rightarrow> Inl e
      | Inr entries \<Rightarrow> Inr (map restoreDates entries))"

text \<open>The comparator \<open>listPublicPosts\<close> hands to \<open>sort\<close>.\<close>

definition compareByDate :: "'a post_entry_scheme \<Rightarrow> 'a post_entry_scheme \<Rightarrow> int" where
  "compareByDate a b =
     (case fm_date (e_frontmatter a) of
        None \<Rightarrow> 1
      | Some dateA \<Rightarrow>
          (case fm_date (e_frontmatter b) of
             None \<Rightarrow> - 1
           | Some dateB \<Rightarrow> dateB - dateA))"

definition listPublicPosts ::
  "serialized_post_entry list \<Rightarrow> error + serialized_post_entry list" where
  "listPublicPosts generatedPosts =
     (case listPosts generatedPosts of
        Inl e \<Rightarrow> Inl e
      | Inr allPosts \<Rightarrow>
          Inr (js_sort compareByDate
                 (filter (\<lambda>post. fm_access (e_frontmatter post) = Public) allPosts)))"

text \<open>The same two functions of the live module, over its own \<open>listPostsCached\<close>.\<close>

definition listPosts_live :: "runtime \<Rightarrow> warning list \<times> (error + post_entry list)" where
  "listPosts_live rt =
     (case listPostsCached_live rt of
        (w, Inl e) \<Rightarrow> (w, Inl e)
      | (w, Inr entries) \<Rightarrow> (w, Inr (map restoreDates entries)))"

definition listPublicPosts_live :: "runtime \<Rightarrow> warning list \<times> (error + post_entry list)" where
  "listPublicPosts_live rt =
     (case listPosts_live rt of
        (w, Inl e) \<Rightarrow> (w, Inl e)
      | (w, Inr allPosts) \<Rightarrow>
          (w, Inr (js_sort compareByDate
                     (filter (\<lambda>post. fm_access (e_frontmatter post) = Public) allPosts))))"

text \<open>
  The order the listing is to have: a dated entry is not older than the dated entries
  behind it, and no undated entry stands in front of a dated one.
\<close>

definition newest_first :: "'a post_entry_scheme \<Rightarrow> 'a post_entry_scheme \<Rightarrow> bool" where
  "newest_first a b \<longleftrightarrow>
     (case fm_date (e_frontmatter a) of
        None \<Rightarrow> fm_date (e_frontmatter b) = None
      | Some dateA \<Rightarrow>
          (case fm_date (e_frontmatter b) of None \<Rightarrow> True | Some dateB \<Rightarrow> dateB \<le> dateA))"

definition getPostBySlugCached ::
  "serialized_post_entry list \<Rightarrow> string \<Rightarrow> error + frontmatter \<times> string" where
  "getPostBySlugCached generatedPosts slug =
     (case find (\<lambda>post. e_slug post = slug) generatedPosts of
        None \<Rightarrow> Inl (JsError (''Post not found: '' @ slug))
      | Some entry \<Rightarrow> Inr (e_frontmatter entry, e_content entry))"

text \<open>\<open>getPostBySlug\<close>: whatever the lookup throws ends in \<open>notFound()\<close>.\<close>

definition getPostBySlug ::
  "serialized_post_entry list \<Rightarrow> string \<Rightarrow> error + frontmatter \<times> string" where
  "getPostBySlug generatedPosts slug =
     (case getPostBySlugCached generatedPosts slug of
        Inl e \<Rightarrow> Inl NotFound
      | Inr (fm, content) \<Rightarrow>
          Inr (fm\<lparr>fm_date := (case fm_date fm of None \<Rightarrow> None | Some t \<Rightarrow> Some t)\<rparr>, content))"

section \<open>The access gate\<close>

datatype same_site = Lax | Strict | NoSameSite

record cookie =
  cookie_value :: string
  httpOnly :: bool
  sameSite :: same_site
  cookie_path :: string
  secure :: bool
  maxAge :: nat

text \<open>The cookie store of the request, by cookie name.\<close>

type_synonym cookie_store = "string \<Rightarrow> cookie option"

text \<open>
  The three messages an action returns under \<open>error\<close> (Japanese in the source): set a
  password on a protected post; enter a password; the password does not match.
\<close>

datatype action_message = MsgPasswordNotConfigured | MsgEnterPassword | MsgPasswordMismatch

text \<open>\<open>ProtectedPostActionState\<close>: each field may be left out.\<close>

record action_state =
  st_success :: "bool option"
  st_error :: "action_message option"
  st_content :: "string option"

text \<open>An entry of a \<open>FormData\<close> is a string or a file; \<open>get\<close> gives the first of a name, or \<open>null\<close>.\<close>

datatype form_entry = FormString string | FormFile string

type_synonym form_data = "(string \<times> form_entry) list"

definition formData_get :: "form_data \<Rightarrow> string \<Rightarrow> form_entry option" where
  "formData_get formData key = map_of formData key"

definition protectedCookieName :: "string \<Rightarrow> string" where
  "protectedCookieName slug = ''protected-post-'' @ slug"

definition hasProtectedAccess :: "cookie_store \<Rightarrow> string \<Rightarrow> string \<Rightarrow> bool" where
  "hasProtectedAccess cookieStore slug expectedHash =
     (case cookieStore (protectedCookieName slug) of
        None \<Rightarrow> False
      | Some c \<Rightarrow> cookie_value c = expectedHash)"

text \<open>
  \<open>sha256\<close> is the hex digest of Node's \<open>createHash("sha256")\<close>, an argument of the
  actions; \<open>!frontmatter.password\<close> holds of a password left out and of the empty one.
\<close>

definition loadProtectedPost ::
  "(string \<Rightarrow> string) \<Rightarrow> serialized_post_entry list \<Rightarrow> cookie_store \<Rightarrow> string \<Rightarrow> error + action_state" where
  "loadProtectedPost sha256 generatedPosts cookieStore slug =
     (case getPostBySlug generatedPosts slug of
        Inl e \<Rightarrow> Inl e
      | Inr (frontmatter, content) \<Rightarrow>
          if fm_access frontmatter \<noteq> Protected then
            Inr \<lparr>st_success = Some True, st_error = None, st_content = Some content\<rparr>
          else
            (case fm_password frontmatter of
               None \<Rightarrow>
                 Inr \<lparr>st_success = None, st_error = Some MsgPasswordNotConfigured, st_content = None\<rparr>
             | Some pw \<Rightarrow>
                 if pw = [] then
                   Inr \<lparr>st_success = None, st_error = Some MsgPasswordNotConfigured, st_content = None\<rparr>
                 else if \<not> hasProtectedAccess cookieStore slug (sha256 pw) then
                   Inr \<lparr>st_success = Some False, st_error = None, st_content = None\<rparr>
                 else
                   Inr \<lparr>st_success = Some True, st_error = None, st_content = Some content\<rparr>))"

text \<open>
  \<open>verifyProtectedPostPassword\<close> returns the state and the cookie store as it leaves it;
  \<open>production\<close> is \<open>process.env.NODE_ENV === "production"\<close>.
\<close>

definition verifyProtectedPostPassword ::
  "(string \<Rightarrow> string) \<Rightarrow> bool \<Rightarrow> serialized_post_entry list \<Rightarrow> cookie_store \<Rightarrow>
   string \<Rightarrow> action_state option \<Rightarrow> form_data \<Rightarrow> error + action_state \<times> cookie_store" where
  "verifyProtectedPostPassword sha256 production generatedPosts cookieStore slug prevState formData =
     (case getPostBySlug generatedPosts slug of
        Inl e \<Rightarrow> Inl e
      | Inr (frontmatter, content) \<Rightarrow>
          if fm_access frontmatter \<noteq> Protected then
            Inr (\<lparr>st_success = Some True, st_error = None, st_content = Some content\<rparr>, cookieStore)
          else
            (case fm_password frontmatter of
               None \<Rightarrow>
                 Inr (\<lparr>st_success = None, st_error = Some MsgPasswordNotConfigured, st_content = None\<rparr>,
                      cookieStore)
             | Some pw \<Rightarrow>
                 if pw = [] then
                   Inr (\<lparr>st_success = None, st_error = Some MsgPasswordNotConfigured, st_content = None\<rparr>,
                        cookieStore)
                 else
                   (case formData_get formData ''password'' of
                      Some (FormString input) \<Rightarrow>
                        if input = [] then
                          Inr (\<lparr>st_success = None, st_error = Some MsgEnterPassword, st_content = None\<rparr>,
                               cookieStore)
                        else if sha256 input \<noteq> sha256 pw then
                          Inr (\<lparr>st_success = None, st_error = Some MsgPasswordMismatch, st_content = None\<rparr>,
                               cookieStore)
                        else
                          Inr (\<lparr>st_success = Some True, st_error = None, st_content = Some content\<rparr>,
                               cookieStore(protectedCookieName slug \<mapsto>
                                 \<lparr>cookie_value = sha256 pw, httpOnly = True, sameSite = Lax,
                                  cookie_path = ''/'', secure = production,
                                  maxAge = 60 * 60 * 12\<rparr>))
                    | _ \<Rightarrow>
                        Inr (\<lparr>st_success = None, st_error = Some MsgEnterPassword, st_content = None\<rparr>,
                             cookieStore))))"

section \<open>What ingestion is to produce\<close>

text \<open>
  The entries and the warnings a batch is to end with when every slug is settled on its
  own: the values of the slugs whose task is fulfilled, and a warning for each slug
  whose task is rejected, both in the order of the slugs.
\<close>

definition fulfilled_of :: "(string \<Rightarrow> rejection + 'e) \<Rightarrow> string list \<Rightarrow> 'e list" where
  "fulfilled_of task slugs =
     List.map_filter (\<lambda>s. case task s of Inl _ \<Rightarrow> None | Inr v \<Rightarrow> Some v) slugs"

definition rejected_of :: "(string \<Rightarrow> rejection + 'e) \<Rightarrow> string list \<Rightarrow> warning list" where
  "rejected_of task slugs =
     List.map_filter (\<lambda>s. case task s of Inl r \<Rightarrow> Some (skip_warning s r) | Inr _ \<Rightarrow> None) slugs"

section \<open>The frontmatter validator\<close>

text \<open>
  Modelled from the spec: the raw key-value mapping the validator is given, decoded from
  the metadata block (\<open>frontmatterSchema.ts\<close> and \<open>parsePost.ts\<close> are not among the
  sources). A value is a scalar, an array or an object; a key is present when the
  mapping holds a value for it.
\<close>

datatype raw_value =
    RNull
  | RBool bool
  | RNumber int
  | RString string
  | RArray "raw_value list"
  | RObject "(string \<times> raw_value) list"

























section \<open>Example data\<close>

definition example_frontmatter :: frontmatter where
  "example_frontmatter =
     \<lparr>fm_title = ''Hello'', fm_access = Public, fm_password = None, fm_description = None,
      fm_thumbnail = None, fm_topics = None, fm_date = None\<rparr>"

definition example_entry :: "string \<Rightarrow> frontmatter \<Rightarrow> serialized_post_entry" where
  "example_entry slug fm =
     \<lparr>e_slug = slug, e_path = ''my-blog-contents/external-posts/'' @ slug @ ''/index.md'',
      e_sha = ''0000'', e_frontmatter = fm, e_content = ''Body of '' @ slug\<rparr>"

text \<open>
  A snapshot with a public post, a protected post with the password \<open>sesame\<close>, a
  protected post with an empty password and a protected post with none.
\<close>

definition example_posts :: "serialized_post_entry list" where
  "example_posts =
     [example_entry ''open'' example_frontmatter,
      example_entry ''secret''
        (example_frontmatter\<lparr>fm_access := Protected, fm_password := Some ''sesame''\<rparr>),
      example_entry ''empty-password''
        (example_frontmatter\<lparr>fm_access := Protected, fm_password := Some []\<rparr>),
      example_entry ''no-password'' (example_frontmatter\<lparr>fm_access := Protected\<rparr>)]"

text \<open>A stand-in digest for the examples: the theorems hold of every digest.\<close>

definition example_digest :: "string \<Rightarrow> string" where
  "example_digest s = ''digest:'' @ s"

definition example_cookie :: "string \<Rightarrow> cookie" where
  "example_cookie v =
     \<lparr>cookie_value = v, httpOnly = True, sameSite = Lax, cookie_path = ''/'', secure = False,
      maxAge = 43200\<rparr>"

text \<open>
  The four posts of the specification's listing example: public posts of 2024-01-01 and
  2024-06-01, a private post of 2024-12-01 and an undated public post.
\<close>

definition listing_example :: "serialized_post_entry list" where
  "listing_example =
     [example_entry ''january'' (example_frontmatter\<lparr>fm_date := Some 1704067200000\<rparr>),
      example_entry ''june'' (example_frontmatter\<lparr>fm_date := Some 1717200000000\<rparr>),
      example_entry ''december''
        (example_frontmatter\<lparr>fm_access := Private, fm_date := Some 1733011200000\<rparr>),
      example_entry ''undated'' example_frontmatter]"

text \<open>A stand-in for \<open>localeCompare\<close> in the examples: the order of the code units.\<close>

fun compare_strings :: "string \<Rightarrow> string \<Rightarrow> int" where
  "compare_strings [] [] = 0"
| "compare_strings [] (y # ys) = - 1"
| "compare_strings (x # xs) [] = 1"
| "compare_strings (x # xs) (y # ys) =
     (if (of_char x :: nat) < of_char y then - 1
      else if (of_char y :: nat) < of_char x then 1
      else compare_strings xs ys)"

text \<open>
  The discovery example of the specification: directories \<open>b\<close>, \<open>a\<close>, \<open>.git\<close> and
  \<open>c-no-index\<close> and a file, under the root of the live module and under the root of the
  generator script; only \<open>a\<close> and \<open>b\<close> hold an \<open>index.md\<close>. The post of \<open>b\<close> has no title.
\<close>

definition example_listing :: "dirent list" where
  "example_listing =
     [\<lparr>d_name = ''b'', isDirectory = True\<rparr>, \<lparr>d_name = ''a'', isDirectory = True\<rparr>,
      \<lparr>d_name = ''.git'', isDirectory = True\<rparr>, \<lparr>d_name = ''c-no-index'', isDirectory = True\<rparr>,
      \<lparr>d_name = ''README.md'', isDirectory = False\<rparr>]"

definition example_files :: "(string \<times> string) list" where
  "example_files =
     [(''/app/external-posts/a/index.md'', ''title: A''),
      (''/app/external-posts/b/index.md'', ''untitled''),
      (''/app/my-blog-contents/external-posts/a/index.md'', ''title: A''),
      (''/app/my-blog-contents/external-posts/b/index.md'', ''untitled''),
      (''/app/external-posts/d/index.md'', ''title: D''),
      (''/app/my-blog-contents/external-posts/d/index.md'', ''title: D'')]"

definition example_parsePost :: "string \<Rightarrow> issue list + frontmatter \<times> string" where
  "example_parsePost raw =
     (if raw = ''untitled'' then Inl [(''title'', ''Required'')]
      else Inr (example_frontmatter, raw))"

definition example_runtime :: runtime where
  "example_runtime =
     \<lparr>rt_cwd = ''/app'', rt_CONTENT_DIR = None, rt_POSTS_ROOT_DIR = None,
      rt_readdir = (\<lambda>p. if p = ''/app/external-posts'' \<or> p = ''/app/my-blog-contents/external-posts''
                         then Some example_listing else None),
      rt_access = (\<lambda>p. p = ''/app/external-posts'' \<or> p = ''/app/my-blog-contents/external-posts'' \<or>
                        map_of example_files p \<noteq> None),
      rt_readFile = map_of example_files,
      rt_localeCompare = compare_strings,
      rt_settled = rev,
      rt_parsePost = example_parsePost,
      rt_sha1 = example_digest\<rparr>"

text \<open>The same tree with the directory \<open>d\<close> listed as well: three posts, one of them invalid.\<close>

definition three_posts_runtime :: runtime where
  "three_posts_runtime =
     example_runtime\<lparr>rt_readdir :=
       (\<lambda>p. if p = ''/app/external-posts'' \<or> p = ''/app/my-blog-contents/external-posts''
            then Some (example_listing @ [\<lparr>d_name = ''d'', isDirectory = True\<rparr>]) else None)\<rparr>"

text \<open>The same tree with one more directory, whose name is a single space.\<close>

definition blank_name_runtime :: runtime where
  "blank_name_runtime =
     example_runtime\<lparr>rt_readdir := (\<lambda>p. if p = ''/app/external-posts''
        then Some (example_listing @ [\<lparr>d_name = '' '', isDirectory = True\<rparr>]) else None)\<rparr>"



text \<open>The same tree read by a parser that rejects every post.\<close>

definition all_invalid_runtime :: runtime where
  "all_invalid_runtime =
     example_runtime\<lparr>rt_parsePost := (\<lambda>raw. Inl [(''title'', ''Required'')])\<rparr>"








section \<open>Properties\<close>

lemma split_on_not_Nil: "split_on c xs \<noteq> []"
  by (induction xs) (auto split: list.splits)

subsection \<open>Path containment\<close>

lemma split_on_append: "split_on c (a @ c # b) = split_on c a @ split_on c b"
  by (induction a) (auto split: list.splits simp: split_on_not_Nil)

lemma path_segments_append:
  "path_segments (a @ CHR ''/'' # b) = path_segments a @ path_segments b"
  by (simp add: path_segments_def split_on_append)

lemma prefix_path_segments:
  assumes "prefix (r @ ''/'') p"
  shows "prefix (path_segments r) (path_segments p)"
proof -
  from assms obtain rest where "p = r @ CHR ''/'' # rest"
    by (auto simp: prefix_def)
  then show ?thesis
    by (simp add: path_segments_append)
qed

lemma split_on_no_sep: "s \<in> set (split_on c xs) \<Longrightarrow> c \<notin> set s"
  by (induction xs arbitrary: s) (auto split: if_splits list.splits)

lemma split_on_single: "c \<notin> set x \<Longrightarrow> split_on c x = [x]"
  by (induction x) auto

lemma split_on_join_sep:
  "xs \<noteq> [] \<Longrightarrow> \<forall>x \<in> set xs. CHR ''/'' \<notin> set x \<Longrightarrow> split_on CHR ''/'' (join_sep xs) = xs"
proof (induction xs rule: join_sep.induct)
  case 1
  then show ?case by simp
next
  case (2 x)
  then show ?case by (simp add: split_on_single)
next
  case (3 x y zs)
  then show ?case by (simp add: split_on_append split_on_single)
qed

lemma clean_normalize_step:
  "clean_segments res \<Longrightarrow> CHR ''/'' \<notin> set seg \<Longrightarrow> clean_segments (normalize_step False res seg)"
  by (auto simp: clean_segments_def normalize_step_def dest: in_set_butlastD)

lemma clean_foldl:
  "clean_segments res \<Longrightarrow> \<forall>s \<in> set segs. CHR ''/'' \<notin> set s \<Longrightarrow>
   clean_segments (foldl (normalize_step False) res segs)"
  by (induction segs arbitrary: res) (auto simp: clean_normalize_step)

lemma clean_normalize_segments: "clean_segments (normalize_segments False p)"
  unfolding normalize_segments_def
  by (rule clean_foldl) (auto simp: clean_segments_def dest: split_on_no_sep)

lemma path_segments_absolute:
  assumes "clean_segments segs"
  shows "path_segments (CHR ''/'' # join_sep segs) = segs"
proof (cases "segs = []")
  case True
  then show ?thesis by (simp add: path_segments_def)
next
  case False
  with assms have "split_on CHR ''/'' (join_sep segs) = segs"
    by (intro split_on_join_sep) (auto simp: clean_segments_def)
  moreover from assms have "filter (\<lambda>s. s \<noteq> []) segs = segs"
    by (auto simp: clean_segments_def filter_id_conv)
  ultimately show ?thesis by (simp add: path_segments_def)
qed

lemma resolve_loop_absolute:
  "isAbsolute cwd \<Longrightarrow> snd (resolve_loop (ps @ [cwd]) acc) = True"
  by (induction ps arbitrary: acc) (auto simp: isAbsolute_def split: list.splits)

lemma path_resolve_no_dotdot:
  assumes "isAbsolute cwd"
  shows "''..'' \<notin> set (path_segments (path_resolve cwd args))"
proof -
  obtain rp ab where rl: "resolve_loop (rev args @ [cwd]) [] = (rp, ab)"
    by (cases "resolve_loop (rev args @ [cwd]) []")
  with resolve_loop_absolute [OF assms, of "rev args" "[]"] have "ab" by simp
  with rl have "path_resolve cwd args = CHR ''/'' # join_sep (normalize_segments False rp)"
    by (simp add: path_resolve_def normalizeString_def)
  then have "path_segments (path_resolve cwd args) = normalize_segments False rp"
    by (simp add: path_segments_absolute clean_normalize_segments)
  moreover have "''..'' \<notin> set (normalize_segments False rp)"
    using clean_normalize_segments [of rp] by (auto simp: clean_segments_def)
  ultimately show ?thesis by simp
qed

text \<open>
  C3 (amended). \<open>resolvePostFilePath\<close> first removes one leading \<open>"/"\<close> from the slug. If
  what is left, trimmed, is empty, is \<open>"."\<close> or \<open>".."\<close>, or holds \<open>"/"\<close> or a backslash, the call
  throws the invalid-slug error. Every path it returns lies within the resolved posts
  root: the root's segments are its first segments and none of its segments is \<open>".."\<close>
  (the working directory being absolute, as \<open>process.cwd()\<close> is).
\<close>

theorem resolvePostFilePath_within_root:
  "(let cleaned = trim (strip_leading_slash slug)
    in cleaned = [] \<or> cleaned = ''.'' \<or> cleaned = ''..'' \<or>
       CHR ''/'' \<in> set cleaned \<or> CHR 0x5C \<in> set cleaned
       \<longrightarrow> resolvePostFilePath cwd postsRoot slug = Inl (InvalidSlug (strip_leading_slash slug))) \<and>
   (isAbsolute cwd \<and> resolvePostFilePath cwd postsRoot slug = Inr p
      \<longrightarrow> lies_within (path_resolve cwd [postsRoot]) p)"
proof (intro conjI impI)
  show "let cleaned = trim (strip_leading_slash slug)
    in cleaned = [] \<or> cleaned = ''.'' \<or> cleaned = ''..'' \<or>
       CHR ''/'' \<in> set cleaned \<or> CHR 0x5C \<in> set cleaned
       \<longrightarrow> resolvePostFilePath cwd postsRoot slug = Inl (InvalidSlug (strip_leading_slash slug))"
    by (simp add: Let_def resolvePostFilePath_def normalizeSlug_def)
next
  assume a: "isAbsolute cwd \<and> resolvePostFilePath cwd postsRoot slug = Inr p"
  then obtain safeSlug where
    p: "p = path_resolve cwd [postsRoot, safeSlug, POST_ENTRY_FILENAME]" and
    guard: "prefix (path_resolve cwd [postsRoot] @ ''/'') p \<or> p = path_resolve cwd [postsRoot]"
    by (auto simp: resolvePostFilePath_def Let_def split: sum.splits if_splits)
  from guard have "prefix (path_segments (path_resolve cwd [postsRoot])) (path_segments p)"
    by (auto dest: prefix_path_segments)
  moreover from a p have "''..'' \<notin> set (path_segments p)"
    by (simp add: path_resolve_no_dotdot)
  ultimately show "lies_within (path_resolve cwd [postsRoot]) p"
    by (simp add: lies_within_def)
qed

theorem resolvePostFilePath_within_root_witness:
  "isAbsolute ''/app'' \<and>
   resolvePostFilePath ''/app'' ''/app/external-posts'' '' hello '' =
     Inr ''/app/external-posts/hello/index.md'' \<and>
   lies_within (path_resolve ''/app'' [''/app/external-posts'']) ''/app/external-posts/hello/index.md'' \<and>
   resolvePostFilePath ''/app'' ''/app/external-posts'' ''../../etc/passwd'' =
     Inl (InvalidSlug ''../../etc/passwd'') \<and>
   resolvePostFilePath ''/app'' ''/app/external-posts'' ''a/../../b'' =
     Inl (InvalidSlug ''a/../../b'')"
proof -
  have abs: "isAbsolute ''/app''" by code_simp
  have r: "resolvePostFilePath ''/app'' ''/app/external-posts'' '' hello '' =
     Inr ''/app/external-posts/hello/index.md''" by code_simp
  have t1: "CHR ''/'' \<in> set (trim (strip_leading_slash ''../../etc/passwd''))" by code_simp
  have t2: "CHR ''/'' \<in> set (trim (strip_leading_slash ''a/../../b''))" by code_simp
  have s1: "strip_leading_slash ''../../etc/passwd'' = ''../../etc/passwd''" by code_simp
  have s2: "strip_leading_slash ''a/../../b'' = ''a/../../b''" by code_simp
  from resolvePostFilePath_within_root [of "'' hello ''" "''/app''" "''/app/external-posts''"
      "''/app/external-posts/hello/index.md''"] abs r
  have w: "lies_within (path_resolve ''/app'' [''/app/external-posts'']) ''/app/external-posts/hello/index.md''"
    by blast
  from resolvePostFilePath_within_root [of "''../../etc/passwd''" "''/app''" "''/app/external-posts''"] t1 s1
  have e1: "resolvePostFilePath ''/app'' ''/app/external-posts'' ''../../etc/passwd'' =
     Inl (InvalidSlug ''../../etc/passwd'')"
    by (simp add: Let_def)
  from resolvePostFilePath_within_root [of "''a/../../b''" "''/app''" "''/app/external-posts''"] t2 s2
  have e2: "resolvePostFilePath ''/app'' ''/app/external-posts'' ''a/../../b'' =
     Inl (InvalidSlug ''a/../../b'')"
    by (simp add: Let_def)
  from abs r w e1 e2 show ?thesis by blast
qed

text \<open>
  C3 as stated fails for a slug with a leading \<open>"/"\<close>: \<open>"/abc"\<close> holds a \<open>"/"\<close> after trimming,
  and a path is returned for it.
\<close>

theorem resolvePostFilePath_leading_slash_counterexample:
  "CHR ''/'' \<in> set (trim ''/abc'') \<and>
   resolvePostFilePath ''/app'' ''/app/external-posts'' ''/abc'' =
     Inr ''/app/external-posts/abc/index.md''"
  by code_simp

subsection \<open>The access gate\<close>

lemmas example_defs = example_posts_def example_entry_def example_frontmatter_def
  getPostBySlug_def getPostBySlugCached_def

text \<open>
  C1. For a protected post with a non-empty password and a submitted string that is not
  empty (or any submitted string, when the digest of the empty string is not the digest
  of the configured password), \<open>verifyProtectedPostPassword\<close> returns the content and
  sets the cookie \<open>protected-post-<slug>\<close> (value the digest of the configured password,
  HTTP-only, SameSite lax, path \<open>"/"\<close>, max age 43200 seconds) if and only if the digest
  of the submitted string equals the digest of the configured password; on a mismatch
  it returns the mismatch message and leaves the cookie store as it was; when the
  submitted password is empty, missing or a file it returns the message asking for a
  password and leaves the cookie store as it was.
\<close>

theorem verifyProtectedPostPassword_gate:
  assumes "getPostBySlug generatedPosts slug = Inr (fm, content)"
    and "fm_access fm = Protected"
    and "fm_password fm = Some pw"
    and "pw \<noteq> []"
  shows
   "(formData_get formData ''password'' = Some (FormString p) \<and> (p \<noteq> [] \<or> digest [] \<noteq> digest pw) \<longrightarrow>
       ((verifyProtectedPostPassword digest production generatedPosts cookieStore slug prevState formData =
           Inr (\<lparr>st_success = Some True, st_error = None, st_content = Some content\<rparr>,
                cookieStore(''protected-post-'' @ slug \<mapsto>
                  \<lparr>cookie_value = digest pw, httpOnly = True, sameSite = Lax, cookie_path = ''/'',
                   secure = production, maxAge = 43200\<rparr>)))
         \<longleftrightarrow> digest p = digest pw)) \<and>
    (formData_get formData ''password'' = Some (FormString p) \<and> p \<noteq> [] \<and> digest p \<noteq> digest pw \<longrightarrow>
       verifyProtectedPostPassword digest production generatedPosts cookieStore slug prevState formData =
         Inr (\<lparr>st_success = None, st_error = Some MsgPasswordMismatch, st_content = None\<rparr>,
              cookieStore)) \<and>
    ((\<forall>q. formData_get formData ''password'' = Some (FormString q) \<longrightarrow> q = []) \<longrightarrow>
       verifyProtectedPostPassword digest production generatedPosts cookieStore slug prevState formData =
         Inr (\<lparr>st_success = None, st_error = Some MsgEnterPassword, st_content = None\<rparr>, cookieStore))"
  using assms
  by (auto simp: verifyProtectedPostPassword_def protectedCookieName_def
      split: option.splits form_entry.splits)

theorem verifyProtectedPostPassword_gate_witness:
  "getPostBySlug example_posts ''secret'' =
     Inr (example_frontmatter\<lparr>fm_access := Protected, fm_password := Some ''sesame''\<rparr>,
          ''Body of secret'') \<and>
   verifyProtectedPostPassword example_digest True example_posts Map.empty ''secret'' None
       [(''password'', FormString ''sesame'')] =
     Inr (\<lparr>st_success = Some True, st_error = None, st_content = Some ''Body of secret''\<rparr>,
          Map.empty(''protected-post-secret'' \<mapsto>
            \<lparr>cookie_value = example_digest ''sesame'', httpOnly = True, sameSite = Lax,
             cookie_path = ''/'', secure = True, maxAge = 43200\<rparr>)) \<and>
   verifyProtectedPostPassword example_digest True example_posts Map.empty ''secret'' None
       [(''password'', FormString ''guess'')] =
     Inr (\<lparr>st_success = None, st_error = Some MsgPasswordMismatch, st_content = None\<rparr>, Map.empty) \<and>
   verifyProtectedPostPassword example_digest True example_posts Map.empty ''secret'' None
       [(''password'', FormString [])] =
     Inr (\<lparr>st_success = None, st_error = Some MsgEnterPassword, st_content = None\<rparr>, Map.empty) \<and>
   verifyProtectedPostPassword example_digest True example_posts Map.empty ''secret'' None [] =
     Inr (\<lparr>st_success = None, st_error = Some MsgEnterPassword, st_content = None\<rparr>, Map.empty)"
proof -
  let ?fm = "example_frontmatter\<lparr>fm_access := Protected, fm_password := Some ''sesame''\<rparr>"
  have g: "getPostBySlug example_posts ''secret'' = Inr (?fm, ''Body of secret'')"
    by (simp add: example_defs)
  have a: "fm_access ?fm = Protected" and b: "fm_password ?fm = Some ''sesame''"
    and c: "''sesame'' \<noteq> []"
    by simp_all
  note gate = verifyProtectedPostPassword_gate [OF g a b c, where digest = example_digest
      and production = True and cookieStore = Map.empty and prevState = None]
  have 1: "verifyProtectedPostPassword example_digest True example_posts Map.empty ''secret'' None
       [(''password'', FormString ''sesame'')] =
     Inr (\<lparr>st_success = Some True, st_error = None, st_content = Some ''Body of secret''\<rparr>,
          Map.empty(''protected-post-secret'' \<mapsto>
            \<lparr>cookie_value = example_digest ''sesame'', httpOnly = True, sameSite = Lax,
             cookie_path = ''/'', secure = True, maxAge = 43200\<rparr>))"
    using gate [where formData = "[(''password'', FormString ''sesame'')]" and p = "''sesame''"]
    by (simp add: formData_get_def)
  have 2: "verifyProtectedPostPassword example_digest True example_posts Map.empty ''secret'' None
       [(''password'', FormString ''guess'')] =
     Inr (\<lparr>st_success = None, st_error = Some MsgPasswordMismatch, st_content = None\<rparr>, Map.empty)"
    using gate [where formData = "[(''password'', FormString ''guess'')]" and p = "''guess''"]
    by (simp add: formData_get_def example_digest_def)
  have 3: "verifyProtectedPostPassword example_digest True example_posts Map.empty ''secret'' None
       [(''password'', FormString [])] =
     Inr (\<lparr>st_success = None, st_error = Some MsgEnterPassword, st_content = None\<rparr>, Map.empty)"
    using gate [where formData = "[(''password'', FormString [])]"]
    by (simp add: formData_get_def)
  have 4: "verifyProtectedPostPassword example_digest True example_posts Map.empty ''secret'' None [] =
     Inr (\<lparr>st_success = None, st_error = Some MsgEnterPassword, st_content = None\<rparr>, Map.empty)"
    using gate [where formData = "[]"]
    by (simp add: formData_get_def)
  from g 1 2 3 4 show ?thesis by blast
qed

text \<open>
  C2 (amended). For an existing post, \<open>loadProtectedPost\<close> returns the content when the
  post is not protected; for a protected post with a non-empty password it returns the
  content when the request carries a cookie named \<open>protected-post-<slug>\<close> whose value is
  the digest of the password, and otherwise (so whenever no cookie holds that digest)
  the unauthenticated state: \<open>success = false\<close>, no content, no error, and not the
  not-found outcome; for a protected post with no password it returns the
  misconfiguration message.
\<close>

theorem loadProtectedPost_outcomes:
  assumes "getPostBySlug generatedPosts slug = Inr (fm, content)"
  shows
   "(fm_access fm \<noteq> Protected \<longrightarrow>
       loadProtectedPost digest generatedPosts cookieStore slug =
         Inr \<lparr>st_success = Some True, st_error = None, st_content = Some content\<rparr>) \<and>
    (fm_access fm = Protected \<and> fm_password fm = Some pw \<and> pw \<noteq> [] \<longrightarrow>
       ((\<forall>n c. cookieStore n = Some c \<longrightarrow> cookie_value c \<noteq> digest pw) \<longrightarrow>
          loadProtectedPost digest generatedPosts cookieStore slug =
            Inr \<lparr>st_success = Some False, st_error = None, st_content = None\<rparr>) \<and>
       (loadProtectedPost digest generatedPosts cookieStore slug =
          (if (\<exists>c. cookieStore ((''protected-post-'' @ slug)) = Some c \<and> cookie_value c = digest pw)
           then Inr \<lparr>st_success = Some True, st_error = None, st_content = Some content\<rparr>
           else Inr \<lparr>st_success = Some False, st_error = None, st_content = None\<rparr>))) \<and>
    (fm_access fm = Protected \<and> fm_password fm = None \<longrightarrow>
       loadProtectedPost digest generatedPosts cookieStore slug =
         Inr \<lparr>st_success = None, st_error = Some MsgPasswordNotConfigured, st_content = None\<rparr>)"
  using assms
  by (auto simp: loadProtectedPost_def hasProtectedAccess_def protectedCookieName_def
      split: option.splits)

theorem loadProtectedPost_outcomes_witness:
  "loadProtectedPost example_digest example_posts Map.empty ''open'' =
     Inr \<lparr>st_success = Some True, st_error = None, st_content = Some ''Body of open''\<rparr> \<and>
   loadProtectedPost example_digest example_posts Map.empty ''secret'' =
     Inr \<lparr>st_success = Some False, st_error = None, st_content = None\<rparr> \<and>
   loadProtectedPost example_digest example_posts
       [''protected-post-secret'' \<mapsto> example_cookie (example_digest ''sesame'')] ''secret'' =
     Inr \<lparr>st_success = Some True, st_error = None, st_content = Some ''Body of secret''\<rparr> \<and>
   loadProtectedPost example_digest example_posts Map.empty ''no-password'' =
     Inr \<lparr>st_success = None, st_error = Some MsgPasswordNotConfigured, st_content = None\<rparr>"
proof -
  have g1: "getPostBySlug example_posts ''open'' = Inr (example_frontmatter, ''Body of open'')"
    by (simp add: example_defs)
  have g2: "getPostBySlug example_posts ''secret'' =
      Inr (example_frontmatter\<lparr>fm_access := Protected, fm_password := Some ''sesame''\<rparr>,
           ''Body of secret'')"
    by (simp add: example_defs)
  have g3: "getPostBySlug example_posts ''no-password'' =
      Inr (example_frontmatter\<lparr>fm_access := Protected\<rparr>, ''Body of no-password'')"
    by (simp add: example_defs)
  have 1: "loadProtectedPost example_digest example_posts Map.empty ''open'' =
     Inr \<lparr>st_success = Some True, st_error = None, st_content = Some ''Body of open''\<rparr>"
    using loadProtectedPost_outcomes [OF g1, where digest = example_digest and cookieStore = Map.empty]
    by (simp add: example_frontmatter_def)
  have 2: "loadProtectedPost example_digest example_posts Map.empty ''secret'' =
     Inr \<lparr>st_success = Some False, st_error = None, st_content = None\<rparr>"
    using loadProtectedPost_outcomes [OF g2, where digest = example_digest and cookieStore = Map.empty
        and pw = "''sesame''"]
    by simp
  have 3: "loadProtectedPost example_digest example_posts
       [''protected-post-secret'' \<mapsto> example_cookie (example_digest ''sesame'')] ''secret'' =
     Inr \<lparr>st_success = Some True, st_error = None, st_content = Some ''Body of secret''\<rparr>"
    using loadProtectedPost_outcomes [OF g2, where digest = example_digest
        and cookieStore = "[''protected-post-secret'' \<mapsto> example_cookie (example_digest ''sesame'')]"
        and pw = "''sesame''"]
    by (simp add: example_cookie_def)
  have 4: "loadProtectedPost example_digest example_posts Map.empty ''no-password'' =
     Inr \<lparr>st_success = None, st_error = Some MsgPasswordNotConfigured, st_content = None\<rparr>"
    using loadProtectedPost_outcomes [OF g3, where digest = example_digest and cookieStore = Map.empty]
    by (simp add: example_frontmatter_def)
  from 1 2 3 4 show ?thesis by blast
qed

text \<open>
  C2 as stated fails for a cookie of another name: a request whose cookie \<open>session\<close>
  holds the digest of the password of the post \<open>secret\<close> gets the unauthenticated state,
  not the content.
\<close>

theorem loadProtectedPost_other_cookie_counterexample:
  "getPostBySlug example_posts ''secret'' =
     Inr (example_frontmatter\<lparr>fm_access := Protected, fm_password := Some ''sesame''\<rparr>,
          ''Body of secret'') \<and>
   [''session'' \<mapsto> example_cookie (example_digest ''sesame'')] ''session'' =
     Some (example_cookie (example_digest ''sesame'')) \<and>
   cookie_value (example_cookie (example_digest ''sesame'')) = example_digest ''sesame'' \<and>
   loadProtectedPost example_digest example_posts
       [''session'' \<mapsto> example_cookie (example_digest ''sesame'')] ''secret'' =
     Inr \<lparr>st_success = Some False, st_error = None, st_content = None\<rparr>"
  by (simp add: example_defs loadProtectedPost_def hasProtectedAccess_def protectedCookieName_def
      example_cookie_def)

text \<open>
  C10. For a protected post whose password is the empty string, \<open>loadProtectedPost\<close>
  returns the misconfiguration message whatever cookies the request carries, and
  \<open>verifyProtectedPostPassword\<close> returns it for every submitted form, the empty string
  included, leaving the cookie store as it was.
\<close>

theorem empty_password_never_unlocks:
  assumes "getPostBySlug generatedPosts slug = Inr (fm, content)"
    and "fm_access fm = Protected"
    and "fm_password fm = Some []"
  shows
   "loadProtectedPost digest generatedPosts cookieStore slug =
      Inr \<lparr>st_success = None, st_error = Some MsgPasswordNotConfigured, st_content = None\<rparr> \<and>
    verifyProtectedPostPassword digest production generatedPosts cookieStore slug prevState formData =
      Inr (\<lparr>st_success = None, st_error = Some MsgPasswordNotConfigured, st_content = None\<rparr>,
           cookieStore)"
  using assms
  by (simp add: loadProtectedPost_def verifyProtectedPostPassword_def)

theorem empty_password_never_unlocks_witness:
  "getPostBySlug example_posts ''empty-password'' =
     Inr (example_frontmatter\<lparr>fm_access := Protected, fm_password := Some []\<rparr>,
          ''Body of empty-password'') \<and>
   loadProtectedPost example_digest example_posts
       [protectedCookieName ''empty-password'' \<mapsto> example_cookie (example_digest [])]
       ''empty-password'' =
     Inr \<lparr>st_success = None, st_error = Some MsgPasswordNotConfigured, st_content = None\<rparr> \<and>
   verifyProtectedPostPassword example_digest True example_posts Map.empty ''empty-password'' None
       [(''password'', FormString [])] =
     Inr (\<lparr>st_success = None, st_error = Some MsgPasswordNotConfigured, st_content = None\<rparr>,
          Map.empty)"
proof -
  let ?fm = "example_frontmatter\<lparr>fm_access := Protected, fm_password := Some []\<rparr>"
  have g: "getPostBySlug example_posts ''empty-password'' = Inr (?fm, ''Body of empty-password'')"
    by (simp add: example_defs)
  have a: "fm_access ?fm = Protected" and b: "fm_password ?fm = Some []"
    by simp_all
  from empty_password_never_unlocks [OF g a b, where digest = example_digest and production = True
      and cookieStore = "[protectedCookieName ''empty-password'' \<mapsto> example_cookie (example_digest [])]"]
    empty_password_never_unlocks [OF g a b, where digest = example_digest and production = True
      and cookieStore = Map.empty and prevState = None and formData = "[(''password'', FormString [])]"]
    g
  show ?thesis by blast
qed

subsection \<open>The public listing\<close>

lemma mset_insert_by: "mset (insert_by compareFn x ys) = add_mset x (mset ys)"
  by (induction ys) auto

lemma mset_sort_loop:
  "mset (foldl (\<lambda>sorted x. insert_by compareFn x sorted) acc xs) = mset acc + mset xs"
  by (induction xs arbitrary: acc) (auto simp: mset_insert_by)

lemma mset_js_sort: "mset (js_sort compareFn xs) = mset xs"
  by (simp add: js_sort_def mset_sort_loop)

lemma set_insert_by: "set (insert_by compareFn x ys) = insert x (set ys)"
  using mset_insert_by [of compareFn x ys] by (metis set_mset_add_mset_insert set_mset_mset)

text \<open>
  Insertion keeps a list ordered by a transitive relation that the comparator decides:
  below means related, not below means related the other way round.
\<close>

lemma sorted_insert_by:
  assumes tr: "\<And>a b c. R a b \<Longrightarrow> R b c \<Longrightarrow> R a c"
    and below: "\<And>a b. compareFn a b < 0 \<Longrightarrow> R a b"
    and not_below: "\<And>a b. \<not> compareFn a b < 0 \<Longrightarrow> R b a"
    and sorted: "sorted_wrt R ys"
  shows "sorted_wrt R (insert_by compareFn x ys)"
  using sorted
proof (induction ys)
  case Nil
  then show ?case by simp
next
  case (Cons y ys)
  show ?case
  proof (cases "compareFn x y < 0")
    case True
    then have xy: "R x y" by (rule below)
    have "R x z" if "z \<in> set ys" for z
      using that Cons.prems xy tr by auto
    with xy Cons.prems True show ?thesis by simp
  next
    case False
    then have yx: "R y x" by (rule not_below)
    from Cons have "sorted_wrt R (insert_by compareFn x ys)" by simp
    with yx Cons.prems False show ?thesis
      by (simp add: set_insert_by)
  qed
qed

lemma sorted_sort_loop:
  assumes "\<And>a b c. R a b \<Longrightarrow> R b c \<Longrightarrow> R a c"
    and "\<And>a b. compareFn a b < 0 \<Longrightarrow> R a b"
    and "\<And>a b. \<not> compareFn a b < 0 \<Longrightarrow> R b a"
    and "sorted_wrt R acc"
  shows "sorted_wrt R (foldl (\<lambda>sorted x. insert_by compareFn x sorted) acc xs)"
  using assms(4)
proof (induction xs arbitrary: acc)
  case Nil
  then show ?case by simp
next
  case (Cons x xs)
  have "sorted_wrt R (insert_by compareFn x acc)"
    using assms(1-3) Cons.prems by (rule sorted_insert_by)
  then show ?case using Cons.IH by simp
qed

lemma sorted_js_sort:
  assumes "\<And>a b c. R a b \<Longrightarrow> R b c \<Longrightarrow> R a c"
    and "\<And>a b. compareFn a b < 0 \<Longrightarrow> R a b"
    and "\<And>a b. \<not> compareFn a b < 0 \<Longrightarrow> R b a"
  shows "sorted_wrt R (js_sort compareFn xs)"
proof -
  have "sorted_wrt R []" by simp
  with assms show ?thesis
    unfolding js_sort_def by (rule sorted_sort_loop)
qed

lemma newest_first_trans: "newest_first a b \<Longrightarrow> newest_first b c \<Longrightarrow> newest_first a c"
  by (auto simp: newest_first_def split: option.splits)

lemma compareByDate_below: "compareByDate a b < 0 \<Longrightarrow> newest_first a b"
  by (auto simp: newest_first_def compareByDate_def split: option.splits)

lemma compareByDate_not_below: "\<not> compareByDate a b < 0 \<Longrightarrow> newest_first b a"
  by (auto simp: newest_first_def compareByDate_def split: option.splits)

lemma sorted_by_date: "sorted_wrt newest_first (js_sort compareByDate xs)"
  by (rule sorted_js_sort [OF newest_first_trans compareByDate_below compareByDate_not_below])

lemma restoreDates_same: "restoreDates item = item"
  by (cases "fm_date (e_frontmatter item)") (simp_all add: restoreDates_def)

lemma map_restoreDates: "map restoreDates xs = xs"
  by (induction xs) (simp_all add: restoreDates_same)

text \<open>
  C4. When the snapshot holds a post, \<open>listPublicPosts\<close> returns exactly the entries whose
  access is public (the same entries, as often as they occur, and no others), ordered
  so that a dated entry is not older than any dated entry behind it and no undated
  entry stands in front of a dated one; nothing is said of the order among undated
  entries. The same holds of \<open>listPublicPosts\<close> of the live module over the posts its
  \<open>listPosts\<close> returns.
\<close>

theorem listPublicPosts_newest_first:
  "(generatedPosts \<noteq> [] \<longrightarrow>
      (\<exists>r. listPublicPosts generatedPosts = Inr r \<and>
           mset r = mset (filter (\<lambda>post. fm_access (e_frontmatter post) = Public) generatedPosts) \<and>
           sorted_wrt newest_first r)) \<and>
   (listPosts_live rt = (w, Inr allPosts) \<longrightarrow>
      (\<exists>r. listPublicPosts_live rt = (w, Inr r) \<and>
           mset r = mset (filter (\<lambda>post. fm_access (e_frontmatter post) = Public) allPosts) \<and>
           sorted_wrt newest_first r))"
  by (simp add: listPublicPosts_def listPosts_def listPostsCached_def listPublicPosts_live_def
      map_restoreDates mset_js_sort sorted_by_date)

theorem listPublicPosts_newest_first_witness:
  "listing_example \<noteq> [] \<and>
   map e_slug (filter (\<lambda>post. fm_access (e_frontmatter post) = Public) listing_example) =
     [''january'', ''june'', ''undated''] \<and>
   (\<exists>r. listPublicPosts listing_example = Inr r \<and>
        map e_slug r = [''june'', ''january'', ''undated''] \<and>
        mset r = mset (filter (\<lambda>post. fm_access (e_frontmatter post) = Public) listing_example) \<and>
        sorted_wrt newest_first r)"
proof -
  have ne: "listing_example \<noteq> []"
    by (simp add: listing_example_def)
  have pub: "map e_slug (filter (\<lambda>post. fm_access (e_frontmatter post) = Public) listing_example) =
     [''january'', ''june'', ''undated'']"
    by (simp add: listing_example_def example_entry_def example_frontmatter_def)
  from listPublicPosts_newest_first [of listing_example] ne
  obtain r where r: "listPublicPosts listing_example = Inr r"
    "mset r = mset (filter (\<lambda>post. fm_access (e_frontmatter post) = Public) listing_example)"
    "sorted_wrt newest_first r"
    by blast
  have "map e_slug (projr (listPublicPosts listing_example)) = [''june'', ''january'', ''undated'']"
    by (simp add: listPublicPosts_def listPosts_def listPostsCached_def restoreDates_same js_sort_def
        compareByDate_def listing_example_def example_entry_def example_frontmatter_def)
  with r have slugs: "map e_slug r = [''june'', ''january'', ''undated'']" by simp
  show ?thesis
    using ne pub r slugs by (intro conjI exI [of _ r]) assumption+
qed

subsection \<open>The discovery loop\<close>


lemma normalizeSlug_Inl: "normalizeSlug n = Inl e \<Longrightarrow> e = InvalidSlug n"
  by (auto simp: normalizeSlug_def Let_def split: if_splits)

lemma normalizeSlug_blank: "trim n = [] \<Longrightarrow> normalizeSlug n = Inl (InvalidSlug n)"
  by (simp add: normalizeSlug_def)


lemma map_throwing_throws:
  "n \<in> set ns \<Longrightarrow> f n = Inl e \<Longrightarrow> \<exists>m \<in> set ns. \<exists>e'. f m = Inl e' \<and> map_throwing f ns = Inl e'"
proof (induction ns)
  case Nil
  then show ?case by simp
next
  case (Cons a ns)
  show ?case
  proof (cases "f a")
    case (Inl e')
    then show ?thesis by auto
  next
    case (Inr y)
    with Cons.prems have "n \<in> set ns" by auto
    from Cons.IH [OF this Cons.prems(2)] obtain m e' where
      "m \<in> set ns" "f m = Inl e'" "map_throwing f ns = Inl e'" by blast
    with Inr show ?thesis by auto
  qed
qed









subsection \<open>Discovery of slugs\<close>








lemmas runtime_defs = example_runtime_def example_listing_def example_files_def
  example_parsePost_def three_posts_runtime_def blank_name_runtime_def all_invalid_runtime_def

lemmas path_defs = path_join_def path_normalize_def normalizeString_def normalize_segments_def
  normalize_step_def isAbsolute_def POST_ENTRY_FILENAME_def

lemmas slug_defs = normalizeSlug_def trim_def isWhiteSpace_def strip_leading_slash_def







text \<open>
  C9. If the listing of the posts root holds a non-hidden directory whose name trims to
  the empty string, \<open>listPostSlugs\<close> returns no slugs: the pass ends with the invalid-slug
  error of a directory name of the listing, and nothing is logged.
\<close>

theorem listPostSlugs_blank_name_fails:
  assumes "rt_readdir rt postsRoot = Some entries"
    and "entry \<in> set entries"
    and "isDirectory entry"
    and "\<not> prefix ''.'' (d_name entry)"
    and "trim (d_name entry) = []"
  shows "\<exists>n \<in> set (candidate_names entries).
     listPostSlugs rt expected postsRoot = ([], Inl (InvalidSlug n))"
proof -
  from assms(2-4) have mem: "d_name entry \<in> set (candidate_names entries)"
    by (auto simp: candidate_names_def)
  from assms(5) have "normalizeSlug (d_name entry) = Inl (InvalidSlug (d_name entry))"
    by (rule normalizeSlug_blank)
  from map_throwing_throws [where f = normalizeSlug, OF mem this]
  obtain m e' where m: "m \<in> set (candidate_names entries)"
    and fm: "normalizeSlug m = Inl e'"
    and thrown: "map_throwing normalizeSlug (candidate_names entries) = Inl e'"
    by blast
  from fm have "e' = InvalidSlug m" by (rule normalizeSlug_Inl)
  with thrown assms(1) have "listPostSlugs rt expected postsRoot = ([], Inl (InvalidSlug m))"
    by (simp add: listPostSlugs_def candidate_names_def)
  with m show ?thesis by blast
qed

theorem listPostSlugs_blank_name_fails_witness:
  "rt_readdir blank_name_runtime ''/app/external-posts'' =
     Some (example_listing @ [\<lparr>d_name = '' '', isDirectory = True\<rparr>]) \<and>
   trim '' '' = [] \<and>
   (\<exists>n \<in> set (candidate_names (example_listing @ [\<lparr>d_name = '' '', isDirectory = True\<rparr>])).
      listPostSlugs blank_name_runtime EXPECTED_LAYOUT_live ''/app/external-posts'' =
        ([], Inl (InvalidSlug n)))"
proof -
  let ?blank = "\<lparr>d_name = '' '', isDirectory = True\<rparr>"
  have rd: "rt_readdir blank_name_runtime ''/app/external-posts'' = Some (example_listing @ [?blank])"
    by (simp add: blank_name_runtime_def)
  have mem: "?blank \<in> set (example_listing @ [?blank])" by simp
  have dir: "isDirectory ?blank" by simp
  have shown: "\<not> prefix ''.'' (d_name ?blank)" by simp
  have blank: "trim (d_name ?blank) = []" by (simp add: trim_def isWhiteSpace_def)
  then have blank': "trim '' '' = []" by simp
  note fails = listPostSlugs_blank_name_fails [OF rd mem dir shown blank, of EXPECTED_LAYOUT_live]
  show ?thesis
    by (intro conjI) (rule rd, rule blank', rule fails)
qed

subsection \<open>Batch ingestion\<close>

lemma settle_loop:
  "foldl settle_step acc (zip slugs (map task slugs)) =
     (fst acc @ rejected_of task slugs, snd acc @ fulfilled_of task slugs)"
proof (induction slugs arbitrary: acc)
  case Nil
  then show ?case by (simp add: rejected_of_def fulfilled_of_def map_filter_simps)
next
  case (Cons s slugs)
  show ?case
  proof (cases "task s")
    case (Inl r)
    then show ?thesis
      using Cons.IH [of "(fst acc @ [skip_warning s r], snd acc)"]
      by (simp add: settle_step_def rejected_of_def fulfilled_of_def map_filter_simps)
  next
    case (Inr v)
    then show ?thesis
      using Cons.IH [of "(fst acc, snd acc @ [v])"]
      by (simp add: settle_step_def rejected_of_def fulfilled_of_def map_filter_simps)
  qed
qed

lemma collect_settled_eq:
  "collect_settled slugs (map task slugs) = (rejected_of task slugs, fulfilled_of task slugs)"
  by (simp add: collect_settled_def settle_loop)

lemma readPostEntry_live_slug: "readPostEntry_live rt postsRoot s = Inr v \<Longrightarrow> e_slug v = s"
  by (auto simp: readPostEntry_live_def split: sum.splits option.splits prod.splits)

lemma readPostEntry_slug: "readPostEntry rt postsRoot s = Inr v \<Longrightarrow> e_slug v = s"
  by (auto simp: readPostEntry_def split: sum.splits option.splits prod.splits)

lemma fulfilled_slugs:
  assumes "\<And>s v. task s = Inr v \<Longrightarrow> e_slug v = s"
  shows "map e_slug (fulfilled_of task slugs) = filter (\<lambda>s. \<not> isl (task s)) slugs"
proof (induction slugs)
  case Nil
  then show ?case by (simp add: fulfilled_of_def map_filter_simps)
next
  case (Cons s slugs)
  then show ?case
    using assms [of s]
    by (cases "task s") (simp_all add: fulfilled_of_def map_filter_simps)
qed

lemma fulfilled_member:
  "s \<in> set slugs \<Longrightarrow> task s = Inr v \<Longrightarrow> v \<in> set (fulfilled_of task slugs)"
  by (induction slugs) (auto simp: fulfilled_of_def map_filter_simps split: sum.splits)

lemma rejected_member:
  "s \<in> set slugs \<Longrightarrow> task s = Inl r \<Longrightarrow> skip_warning s r \<in> set (rejected_of task slugs)"
  by (induction slugs) (auto simp: rejected_of_def map_filter_simps split: sum.splits)

lemma listPostsCached_live_run:
  assumes "rt_access rt (resolvePostsRoot_live rt)"
    and "listPostSlugs rt EXPECTED_LAYOUT_live (resolvePostsRoot_live rt) = (w, Inr slugs)"
  shows "listPostsCached_live rt =
     (w @ rejected_of (readPostEntry_live rt (resolvePostsRoot_live rt)) slugs,
      Inr (fulfilled_of (readPostEntry_live rt (resolvePostsRoot_live rt)) slugs))"
  using assms
  by (simp add: listPostsCached_live_def assertPostsRootExists_def collect_settled_eq Let_def)

lemma buildPosts_run:
  assumes "rt_access rt (resolvePostsRoot rt)"
    and "listPostSlugs rt EXPECTED_LAYOUT (resolvePostsRoot rt) = (w, Inr slugs)"
  shows "buildPosts rt =
     (w @ rejected_of (readPostEntry rt (resolvePostsRoot rt)) slugs,
      if fulfilled_of (readPostEntry rt (resolvePostsRoot rt)) slugs = [] then Inl NoValidPosts
      else Inr (fulfilled_of (readPostEntry rt (resolvePostsRoot rt)) slugs))"
  using assms
  by (simp add: buildPosts_def assertPostsRootExists_def collect_settled_eq Let_def)

text \<open>
  C5. Once the slugs are discovered, the batch of the live module ends with the warnings
  of discovery followed by one warning for each slug whose task is rejected, and with
  the entries of the slugs whose task is fulfilled, each the value of that slug's own
  task, in the order of the slug list: the slugs of the entries are the slugs whose
  task is fulfilled, in discovery order, and a slug whose task is rejected is logged
  and is not among them. The generator's \<open>buildPosts\<close> collects the same way.
\<close>

theorem ingestion_settles_each_slug:
  "(rt_access rt (resolvePostsRoot_live rt) \<and>
    listPostSlugs rt EXPECTED_LAYOUT_live (resolvePostsRoot_live rt) = (w, Inr slugs) \<longrightarrow>
      listPostsCached_live rt =
        (w @ rejected_of (readPostEntry_live rt (resolvePostsRoot_live rt)) slugs,
         Inr (fulfilled_of (readPostEntry_live rt (resolvePostsRoot_live rt)) slugs)) \<and>
      map e_slug (fulfilled_of (readPostEntry_live rt (resolvePostsRoot_live rt)) slugs) =
        filter (\<lambda>s. \<not> isl (readPostEntry_live rt (resolvePostsRoot_live rt) s)) slugs \<and>
      (\<forall>s \<in> set slugs. \<forall>v. readPostEntry_live rt (resolvePostsRoot_live rt) s = Inr v \<longrightarrow>
         v \<in> set (fulfilled_of (readPostEntry_live rt (resolvePostsRoot_live rt)) slugs)) \<and>
      (\<forall>s \<in> set slugs. \<forall>r. readPostEntry_live rt (resolvePostsRoot_live rt) s = Inl r \<longrightarrow>
         skip_warning s r \<in> set (rejected_of (readPostEntry_live rt (resolvePostsRoot_live rt)) slugs) \<and>
         s \<notin> set (map e_slug (fulfilled_of (readPostEntry_live rt (resolvePostsRoot_live rt)) slugs)))) \<and>
   (rt_access rt (resolvePostsRoot rt) \<and>
    listPostSlugs rt EXPECTED_LAYOUT (resolvePostsRoot rt) = (w', Inr slugs') \<and>
    fulfilled_of (readPostEntry rt (resolvePostsRoot rt)) slugs' \<noteq> [] \<longrightarrow>
      buildPosts rt =
        (w' @ rejected_of (readPostEntry rt (resolvePostsRoot rt)) slugs',
         Inr (fulfilled_of (readPostEntry rt (resolvePostsRoot rt)) slugs')) \<and>
      map e_slug (fulfilled_of (readPostEntry rt (resolvePostsRoot rt)) slugs') =
        filter (\<lambda>s. \<not> isl (readPostEntry rt (resolvePostsRoot rt) s)) slugs')"
proof (intro conjI impI)
  let ?task = "readPostEntry_live rt (resolvePostsRoot_live rt)"
  assume a: "rt_access rt (resolvePostsRoot_live rt) \<and>
    listPostSlugs rt EXPECTED_LAYOUT_live (resolvePostsRoot_live rt) = (w, Inr slugs)"
  then show "listPostsCached_live rt = (w @ rejected_of ?task slugs, Inr (fulfilled_of ?task slugs))"
    by (simp add: listPostsCached_live_run)
  show slugs_eq: "map e_slug (fulfilled_of ?task slugs) = filter (\<lambda>s. \<not> isl (?task s)) slugs"
    by (rule fulfilled_slugs) (rule readPostEntry_live_slug)
  show "\<forall>s \<in> set slugs. \<forall>v. ?task s = Inr v \<longrightarrow> v \<in> set (fulfilled_of ?task slugs)"
    by (blast intro: fulfilled_member)
  show "\<forall>s \<in> set slugs. \<forall>r. ?task s = Inl r \<longrightarrow>
         skip_warning s r \<in> set (rejected_of ?task slugs) \<and>
         s \<notin> set (map e_slug (fulfilled_of ?task slugs))"
    unfolding slugs_eq by (auto intro: rejected_member)
next
  let ?task = "readPostEntry rt (resolvePostsRoot rt)"
  assume a: "rt_access rt (resolvePostsRoot rt) \<and>
    listPostSlugs rt EXPECTED_LAYOUT (resolvePostsRoot rt) = (w', Inr slugs') \<and>
    fulfilled_of ?task slugs' \<noteq> []"
  then show "buildPosts rt = (w' @ rejected_of ?task slugs', Inr (fulfilled_of ?task slugs'))"
    by (simp add: buildPosts_run)
  show "map e_slug (fulfilled_of ?task slugs') = filter (\<lambda>s. \<not> isl (?task s)) slugs'"
    by (rule fulfilled_slugs) (rule readPostEntry_slug)
qed

lemmas ingestion_defs = readPostEntry_live_def readPostEntry_def resolvePostFilePath_def
  path_resolve_def toPosixPath_def contentDir_live_def contentDir_def postsRootDir_def
  DEFAULT_CONTENT_DIR_live_def DEFAULT_CONTENT_DIR_def DEFAULT_POSTS_ROOT_DIR_def
  serializeFrontmatter_def skip_warning_def example_digest_def example_frontmatter_def

lemma live_root: "resolvePostsRoot_live example_runtime = ''/app/external-posts''"
  by (simp add: resolvePostsRoot_live_def contentDir_live_def DEFAULT_CONTENT_DIR_live_def
      example_runtime_def path_defs)

lemma script_root: "resolvePostsRoot example_runtime = ''/app/my-blog-contents/external-posts''"
  by (simp add: resolvePostsRoot_def contentDir_def postsRootDir_def DEFAULT_CONTENT_DIR_def
      DEFAULT_POSTS_ROOT_DIR_def example_runtime_def path_defs)

lemma three_live_root: "resolvePostsRoot_live three_posts_runtime = ''/app/external-posts''"
  using live_root
  by (simp add: resolvePostsRoot_live_def contentDir_live_def three_posts_runtime_def)

lemma three_script_root:
  "resolvePostsRoot three_posts_runtime = ''/app/my-blog-contents/external-posts''"
  using script_root
  by (simp add: resolvePostsRoot_def contentDir_def postsRootDir_def three_posts_runtime_def)

lemma three_live_slugs:
  "listPostSlugs three_posts_runtime EXPECTED_LAYOUT_live ''/app/external-posts'' =
     ([SkipDirectoryWithoutEntry ''/app/external-posts/c-no-index/index.md''],
      Inr [''a'', ''b'', ''d''])"
  by (simp add: listPostSlugs_def runtime_defs slug_defs access_step_def path_defs js_sort_def)

lemma three_script_slugs:
  "listPostSlugs three_posts_runtime EXPECTED_LAYOUT ''/app/my-blog-contents/external-posts'' =
     ([SkipDirectoryWithoutEntry ''/app/my-blog-contents/external-posts/c-no-index/index.md''],
      Inr [''a'', ''b'', ''d''])"
  by (simp add: listPostSlugs_def runtime_defs slug_defs access_step_def path_defs js_sort_def)

lemma three_live_rejected:
  "rejected_of (readPostEntry_live three_posts_runtime ''/app/external-posts'') [''a'', ''b'', ''d''] =
     [SkipInvalidFrontmatter ''b/index.md'' [(''title'', ''Required'')]]"
  by (simp add: rejected_of_def map_filter_simps ingestion_defs runtime_defs slug_defs path_defs)

lemma three_live_fulfilled:
  "map e_slug (fulfilled_of (readPostEntry_live three_posts_runtime ''/app/external-posts'')
     [''a'', ''b'', ''d'']) = [''a'', ''d'']"
  by (simp add: fulfilled_of_def map_filter_simps ingestion_defs runtime_defs slug_defs path_defs)

lemma three_script_fulfilled:
  "map e_slug (fulfilled_of (readPostEntry three_posts_runtime ''/app/my-blog-contents/external-posts'')
     [''a'', ''b'', ''d'']) = [''a'', ''d'']"
  by (simp add: fulfilled_of_def map_filter_simps ingestion_defs runtime_defs slug_defs path_defs)

theorem ingestion_settles_each_slug_witness:
  "rt_access three_posts_runtime (resolvePostsRoot_live three_posts_runtime) \<and>
   listPostSlugs three_posts_runtime EXPECTED_LAYOUT_live (resolvePostsRoot_live three_posts_runtime) =
     ([SkipDirectoryWithoutEntry ''/app/external-posts/c-no-index/index.md''],
      Inr [''a'', ''b'', ''d'']) \<and>
   fst (listPostsCached_live three_posts_runtime) =
     [SkipDirectoryWithoutEntry ''/app/external-posts/c-no-index/index.md'',
      SkipInvalidFrontmatter ''b/index.md'' [(''title'', ''Required'')]] \<and>
   map e_slug (projr (snd (listPostsCached_live three_posts_runtime))) = [''a'', ''d''] \<and>
   map e_slug (projr (snd (buildPosts three_posts_runtime))) = [''a'', ''d'']"
proof -
  have acc: "rt_access three_posts_runtime (resolvePostsRoot_live three_posts_runtime)"
    unfolding three_live_root by (simp add: runtime_defs)
  have acc': "rt_access three_posts_runtime (resolvePostsRoot three_posts_runtime)"
    unfolding three_script_root by (simp add: runtime_defs)
  have slugs: "listPostSlugs three_posts_runtime EXPECTED_LAYOUT_live
      (resolvePostsRoot_live three_posts_runtime) =
     ([SkipDirectoryWithoutEntry ''/app/external-posts/c-no-index/index.md''],
      Inr [''a'', ''b'', ''d''])"
    unfolding three_live_root by (rule three_live_slugs)
  have slugs': "listPostSlugs three_posts_runtime EXPECTED_LAYOUT
      (resolvePostsRoot three_posts_runtime) =
     ([SkipDirectoryWithoutEntry ''/app/my-blog-contents/external-posts/c-no-index/index.md''],
      Inr [''a'', ''b'', ''d''])"
    unfolding three_script_root by (rule three_script_slugs)
  have some: "fulfilled_of (readPostEntry three_posts_runtime (resolvePostsRoot three_posts_runtime))
      [''a'', ''b'', ''d''] \<noteq> []"
    using three_script_fulfilled unfolding three_script_root by auto
  note settled = ingestion_settles_each_slug [of three_posts_runtime _ "[''a'', ''b'', ''d'']" _
      "[''a'', ''b'', ''d'']"]
  from settled [THEN conjunct1, rule_format, OF conjI [OF acc slugs], THEN conjunct1]
  have live: "listPostsCached_live three_posts_runtime =
     ([SkipDirectoryWithoutEntry ''/app/external-posts/c-no-index/index.md''] @
        rejected_of (readPostEntry_live three_posts_runtime ''/app/external-posts'') [''a'', ''b'', ''d''],
      Inr (fulfilled_of (readPostEntry_live three_posts_runtime ''/app/external-posts'')
            [''a'', ''b'', ''d'']))"
    unfolding three_live_root .
  from settled [THEN conjunct2, rule_format, OF conjI [OF acc' conjI [OF slugs' some]], THEN conjunct1]
  have script: "snd (buildPosts three_posts_runtime) =
      Inr (fulfilled_of (readPostEntry three_posts_runtime ''/app/my-blog-contents/external-posts'')
            [''a'', ''b'', ''d''])"
    unfolding three_script_root by simp
  have 1: "fst (listPostsCached_live three_posts_runtime) =
     [SkipDirectoryWithoutEntry ''/app/external-posts/c-no-index/index.md'',
      SkipInvalidFrontmatter ''b/index.md'' [(''title'', ''Required'')]]"
    by (simp add: live three_live_rejected)
  have 2: "map e_slug (projr (snd (listPostsCached_live three_posts_runtime))) = [''a'', ''d'']"
    by (simp add: live three_live_fulfilled)
  have 3: "map e_slug (projr (snd (buildPosts three_posts_runtime))) = [''a'', ''d'']"
    by (simp add: script three_script_fulfilled)
  show ?thesis
    by (intro conjI) (rule acc, rule slugs, rule 1, rule 2, rule 3)
qed

lemma all_invalid_live_root: "resolvePostsRoot_live all_invalid_runtime = ''/app/external-posts''"
  using live_root
  by (simp add: resolvePostsRoot_live_def contentDir_live_def all_invalid_runtime_def)

lemma all_invalid_script_root:
  "resolvePostsRoot all_invalid_runtime = ''/app/my-blog-contents/external-posts''"
  using script_root
  by (simp add: resolvePostsRoot_def contentDir_def postsRootDir_def all_invalid_runtime_def)

lemma all_invalid_live_slugs:
  "listPostSlugs all_invalid_runtime EXPECTED_LAYOUT_live ''/app/external-posts'' =
     ([SkipDirectoryWithoutEntry ''/app/external-posts/c-no-index/index.md''], Inr [''a'', ''b''])"
  by (simp add: listPostSlugs_def runtime_defs slug_defs access_step_def path_defs js_sort_def)

lemma all_invalid_script_slugs:
  "listPostSlugs all_invalid_runtime EXPECTED_LAYOUT ''/app/my-blog-contents/external-posts'' =
     ([SkipDirectoryWithoutEntry ''/app/my-blog-contents/external-posts/c-no-index/index.md''],
      Inr [''a'', ''b''])"
  by (simp add: listPostSlugs_def runtime_defs slug_defs access_step_def path_defs js_sort_def)

lemma all_invalid_live_tasks:
  "rejected_of (readPostEntry_live all_invalid_runtime ''/app/external-posts'') [''a'', ''b''] =
     [SkipInvalidFrontmatter ''a/index.md'' [(''title'', ''Required'')],
      SkipInvalidFrontmatter ''b/index.md'' [(''title'', ''Required'')]]"
  "fulfilled_of (readPostEntry_live all_invalid_runtime ''/app/external-posts'') [''a'', ''b''] = []"
  by (simp_all add: rejected_of_def fulfilled_of_def map_filter_simps ingestion_defs runtime_defs
      slug_defs path_defs)

lemma all_invalid_script_tasks:
  "rejected_of (readPostEntry all_invalid_runtime ''/app/my-blog-contents/external-posts'')
     [''a'', ''b''] =
     [SkipInvalidFrontmatter ''a/index.md'' [(''title'', ''Required'')],
      SkipInvalidFrontmatter ''b/index.md'' [(''title'', ''Required'')]]"
  "fulfilled_of (readPostEntry all_invalid_runtime ''/app/my-blog-contents/external-posts'')
     [''a'', ''b''] = []"
  by (simp_all add: rejected_of_def fulfilled_of_def map_filter_simps ingestion_defs runtime_defs
      slug_defs path_defs)

lemma buildPosts_never_empty: "snd (buildPosts rt) \<noteq> Inr []"
  by (auto simp: buildPosts_def Let_def split: sum.splits prod.splits)

lemma listPosts_never_empty: "listPosts generatedPosts \<noteq> Inr []"
  by (simp add: listPosts_def listPostsCached_def)

text \<open>
  C6 on the code. The generator's \<open>buildPosts\<close> never returns the empty list, nor does
  \<open>listPosts\<close> over the snapshot. With the posts \<open>a\<close> and \<open>b\<close> discovered and every post
  rejected by the parser, \<open>buildPosts\<close> throws its error of no valid posts, and
  \<open>listPostsCached\<close> of the live module logs the same warnings and returns the empty list.
\<close>

theorem zero_valid_posts_outcomes:
  "snd (buildPosts rt) \<noteq> Inr [] \<and> listPosts generatedPosts \<noteq> Inr [] \<and>
   buildPosts all_invalid_runtime =
     ([SkipDirectoryWithoutEntry ''/app/my-blog-contents/external-posts/c-no-index/index.md'',
       SkipInvalidFrontmatter ''a/index.md'' [(''title'', ''Required'')],
       SkipInvalidFrontmatter ''b/index.md'' [(''title'', ''Required'')]],
      Inl NoValidPosts) \<and>
   listPostsCached_live all_invalid_runtime =
     ([SkipDirectoryWithoutEntry ''/app/external-posts/c-no-index/index.md'',
       SkipInvalidFrontmatter ''a/index.md'' [(''title'', ''Required'')],
       SkipInvalidFrontmatter ''b/index.md'' [(''title'', ''Required'')]],
      Inr [])"
proof (intro conjI)
  show "snd (buildPosts rt) \<noteq> Inr []" by (rule buildPosts_never_empty)
  show "listPosts generatedPosts \<noteq> Inr []" by (rule listPosts_never_empty)
next
  have acc: "rt_access all_invalid_runtime (resolvePostsRoot all_invalid_runtime)"
    unfolding all_invalid_script_root by (simp add: runtime_defs)
  have slugs: "listPostSlugs all_invalid_runtime EXPECTED_LAYOUT (resolvePostsRoot all_invalid_runtime) =
     ([SkipDirectoryWithoutEntry ''/app/my-blog-contents/external-posts/c-no-index/index.md''],
      Inr [''a'', ''b''])"
    unfolding all_invalid_script_root by (rule all_invalid_script_slugs)
  show "buildPosts all_invalid_runtime =
     ([SkipDirectoryWithoutEntry ''/app/my-blog-contents/external-posts/c-no-index/index.md'',
       SkipInvalidFrontmatter ''a/index.md'' [(''title'', ''Required'')],
       SkipInvalidFrontmatter ''b/index.md'' [(''title'', ''Required'')]],
      Inl NoValidPosts)"
    using buildPosts_run [OF acc slugs]
    by (simp add: all_invalid_script_root all_invalid_script_tasks)
next
  have acc: "rt_access all_invalid_runtime (resolvePostsRoot_live all_invalid_runtime)"
    unfolding all_invalid_live_root by (simp add: runtime_defs)
  have slugs: "listPostSlugs all_invalid_runtime EXPECTED_LAYOUT_live
      (resolvePostsRoot_live all_invalid_runtime) =
     ([SkipDirectoryWithoutEntry ''/app/external-posts/c-no-index/index.md''], Inr [''a'', ''b''])"
    unfolding all_invalid_live_root by (rule all_invalid_live_slugs)
  show "listPostsCached_live all_invalid_runtime =
     ([SkipDirectoryWithoutEntry ''/app/external-posts/c-no-index/index.md'',
       SkipInvalidFrontmatter ''a/index.md'' [(''title'', ''Required'')],
       SkipInvalidFrontmatter ''b/index.md'' [(''title'', ''Required'')]],
      Inr [])"
    using listPostsCached_live_run [OF acc slugs]
    by (simp add: all_invalid_live_root all_invalid_live_tasks)
qed

subsection \<open>The frontmatter validator\<close>




















end
